theory Spec2Isabelle
  imports Complex_Main
begin

section \<open>Strings and numbers of the host language\<close>

text \<open>
  The controller is the React hook \<^verbatim>\<open>useSpeechRecognition\<close> of \<^verbatim>\<open>src/index.ts\<close>. It is
  written against three pieces of the JavaScript standard library, which are embedded first:
  \<^verbatim>\<open>String.prototype.toLowerCase\<close>, \<^verbatim>\<open>Number.prototype.toString(16)\<close> and the \<^verbatim>\<open>RegExp\<close>
  object with its \<^verbatim>\<open>lastIndex\<close> slot. Strings are lists of 8-bit characters; lower-casing
  acts on the ASCII letters.
\<close>

text \<open>
  The exceptions of the model: \<open>TypeError\<close> raised by the standard library, and \<open>Thrown\<close>
  for whatever a function of the caller throws.
\<close>

datatype error = TypeError | Thrown

definition toLowerCase_char :: "char \<Rightarrow> char" where
  "toLowerCase_char c =
     (let n = (of_char c :: nat) in if 65 \<le> n \<and> n \<le> 90 then char_of (n + 32) else c)"

definition toLowerCase :: "string \<Rightarrow> string" where
  "toLowerCase s = map toLowerCase_char s"

definition hex_digit :: "nat \<Rightarrow> char" where
  "hex_digit d = (''0123456789abcdef'' ! d)"

text \<open>
  \<^verbatim>\<open>n.toString(16).split('.')[0]\<close> for a non-negative number: the hexadecimal digits of the
  integer part, most significant first, \<^verbatim>\<open>"0"\<close> for zero.
\<close>

fun toString16 :: "nat \<Rightarrow> string" where
  "toString16 n =
     (if n < 16 then [hex_digit n] else toString16 (n div 16) @ [hex_digit (n mod 16)])"

declare toString16.simps [simp del]

text \<open>
  Line 99: \<^verbatim>\<open>(Math.random() * 1000000000000).toString(16).split('.')[0]\<close>. The input
  \<open>scaled\<close> of the model is the value of the product \<^verbatim>\<open>Math.random() * 1000000000000\<close>, the
  double that the multiplication returns; the id is the hexadecimal numeral of its integer
  part.
\<close>

definition random_id :: "real \<Rightarrow> string" where
  "random_id scaled = toString16 (nat \<lfloor>scaled\<rfloor>)"

section \<open>Regular expression objects\<close>

text \<open>
  A \<^verbatim>\<open>RegExp\<close> object is its compiled pattern, the flags \<^verbatim>\<open>g\<close> and \<^verbatim>\<open>y\<close>, and the mutable
  slot \<^verbatim>\<open>lastIndex\<close>. The compiled pattern is a function: \<open>matcher r S i = Some e\<close> when the
  pattern matches the input \<open>S\<close> starting at index \<open>i\<close> and ending before index \<open>e\<close>.
\<close>

type_synonym matcher = "string \<Rightarrow> nat \<Rightarrow> nat option"

record regexp =
  matcher :: matcher
  global :: bool
  sticky :: bool
  lastIndex :: nat

text \<open>
  One application of the compiled pattern. A pattern never ends a match before its start
  or beyond the input; a result outside that range is taken as failure, which keeps the
  search below total for every function.
\<close>

definition attempt :: "regexp \<Rightarrow> string \<Rightarrow> nat \<Rightarrow> nat option" where
  "attempt r S i =
     (case matcher r S i of
        None \<Rightarrow> None
      | Some e \<Rightarrow> if i \<le> e \<and> e \<le> length S then Some e else None)"

text \<open>The search loop of \<^verbatim>\<open>RegExpBuiltinExec\<close>: try index \<open>i\<close>, then \<open>i + 1\<close>, for \<open>n\<close> indices.\<close>

fun scan_from :: "regexp \<Rightarrow> string \<Rightarrow> nat \<Rightarrow> nat \<Rightarrow> (nat \<times> nat) option" where
  "scan_from r S i 0 = None"
| "scan_from r S i (Suc n) =
     (case attempt r S i of
        Some e \<Rightarrow> Some (i, e)
      | None \<Rightarrow> scan_from r S (Suc i) n)"

text \<open>
  \<^verbatim>\<open>RegExpBuiltinExec(R, S)\<close> of ECMAScript: the search starts at \<^verbatim>\<open>lastIndex\<close> when the
  object is global or sticky (at 0 otherwise); on failure \<^verbatim>\<open>lastIndex\<close> is reset to 0, on
  success it is set to the end of the match. The result is the start and end of the match
  and the object after the call.
\<close>

definition RegExpBuiltinExec :: "regexp \<Rightarrow> string \<Rightarrow> (nat \<times> nat) option \<times> regexp" where
  "RegExpBuiltinExec r S =
     (let tracked = (global r \<or> sticky r);
          li = (if tracked then lastIndex r else 0);
          found = (if li > length S then None
                   else if sticky r then map_option (\<lambda>e. (li, e)) (attempt r S li)
                   else scan_from r S li (Suc (length S) - li))
      in case found of
           None \<Rightarrow> (None, if tracked then r\<lparr>lastIndex := 0\<rparr> else r)
         | Some (i, e) \<Rightarrow> (Some (i, e), if tracked then r\<lparr>lastIndex := e\<rparr> else r))"

definition substring :: "string \<Rightarrow> nat \<Rightarrow> nat \<Rightarrow> string" where
  "substring S i e = take (e - i) (drop i S)"

text \<open>\<^verbatim>\<open>RegExp.prototype.test\<close>: whether exec finds a match, and the object after the call.\<close>

definition test :: "regexp \<Rightarrow> string \<Rightarrow> bool \<times> regexp" where
  "test r S = (case RegExpBuiltinExec r S of (m, r') \<Rightarrow> (m \<noteq> None, r'))"

text \<open>
  The iterator of \<^verbatim>\<open>RegExp.prototype[@@matchAll]\<close>, collected into a list by the spread
  \<^verbatim>\<open>[...]\<close>. It runs exec on a clone of the object whose \<^verbatim>\<open>lastIndex\<close> is \<open>li\<close>; after an
  empty match the clone's \<^verbatim>\<open>lastIndex\<close> is advanced by one.
\<close>

function matchAll_from :: "regexp \<Rightarrow> string \<Rightarrow> nat \<Rightarrow> string list" where
  "matchAll_from r S li =
     (case fst (RegExpBuiltinExec (r\<lparr>lastIndex := li\<rparr>) S) of
        None \<Rightarrow> []
      | Some (i, e) \<Rightarrow>
          if \<not> global r then [substring S i e]
          else substring S i e # matchAll_from r S (if e = i then Suc e else e))"
  by pat_completeness auto

termination
proof (relation "measure (\<lambda>(r, S, li). Suc (length S) - li)", goal_cases)
  case 1
  show ?case by simp
next
  case (2 r S li m i e)
  have scan: "j \<le> p \<and> p \<le> q \<and> q \<le> length S"
    if "scan_from r' S j n = Some (p, q)" for r' j n p q
    using that
  proof (induction n arbitrary: j)
    case 0
    then show ?case by simp
  next
    case (Suc n)
    show ?case
    proof (cases "attempt r' S j")
      case None
      with Suc.prems have "scan_from r' S (Suc j) n = Some (p, q)" by simp
      from Suc.IH [OF this] show ?thesis by simp
    next
      case (Some q')
      with Suc.prems show ?thesis
        by (auto simp: attempt_def split: option.splits if_splits)
    qed
  qed
  from 2 have "li \<le> i \<and> i \<le> e \<and> e \<le> length S"
    by (auto simp: RegExpBuiltinExec_def Let_def attempt_def
        split: option.splits if_splits dest: scan)
  then show ?case by auto
qed

declare matchAll_from.simps [simp del]

text \<open>
  \<^verbatim>\<open>String.prototype.matchAll\<close>: a regular expression without the \<^verbatim>\<open>g\<close> flag raises
  TypeError; otherwise the matches are searched from the object's current \<^verbatim>\<open>lastIndex\<close>,
  which the call itself leaves as it is.
\<close>

definition matchAll :: "string \<Rightarrow> regexp \<Rightarrow> error + string list" where
  "matchAll S r =
     (if \<not> global r then Inl TypeError else Inr (matchAll_from r S (lastIndex r)))"

text \<open>
  The compiled pattern of a regular expression made of the literal characters \<open>w\<close> under the
  \<^verbatim>\<open>i\<close> flag, and line 62: \<^verbatim>\<open>new RegExp('hello world', 'gi')\<close>.
\<close>

definition literal_ci :: "string \<Rightarrow> matcher" where
  "literal_ci w S i =
     (if i + length w \<le> length S \<and> toLowerCase (take (length w) (drop i S)) = toLowerCase w
      then Some (i + length w) else None)"

definition hello_world :: regexp where
  "hello_world =
     \<lparr>matcher = literal_ci ''hello world'', global = True, sticky = False, lastIndex = 0\<rparr>"

section \<open>Data model\<close>

text \<open>
  A \<^verbatim>\<open>SpeechRecognitionEvent\<close> as the handler reads it: \<^verbatim>\<open>event.resultIndex\<close>,
  \<^verbatim>\<open>event.results\<close>, and for each result \<^verbatim>\<open>isFinal\<close> and its alternatives with
  \<^verbatim>\<open>transcript\<close> and \<^verbatim>\<open>confidence\<close>. Any other \<^verbatim>\<open>Event\<close> is opaque.
\<close>

record alternative =
  alt_transcript :: string
  alt_confidence :: real

record recognition_result =
  res_isFinal :: bool
  alternatives :: "alternative list"

record recognition_event =
  resultIndex :: nat
  results :: "recognition_result list"

datatype event = Plain nat | Recognition recognition_event

text \<open>
  A caller-supplied function is known by its identity \<open>fn\<close> and by how a call of it ends:
  \<open>throws f ev\<close> holds when the call with the event \<open>ev\<close> throws instead of returning.
  Whatever else the function does belongs to the caller; a function that calls back into
  the hook while it runs is not modelled. The eleven observer slots of the options object
  are named by \<open>slot\<close>.
\<close>

record callback =
  fn :: nat
  throws :: "event \<Rightarrow> bool"

datatype slot =
  OnAudioEnd | OnAudioStart | OnEnd | OnError | OnNoMatch | OnResult
  | OnSoundEnd | OnSoundStart | OnSpeechEnd | OnSpeechStart | OnStart

text \<open>\<^verbatim>\<open>StartOptions\<close> (lines 12-19): every field may be absent.\<close>

record start_options =
  so_continuous :: "bool option"
  so_grammar :: "string option"
  so_interimResults :: "bool option"
  so_lang :: "string option"
  so_maxAlternatives :: "nat option"
  so_regex :: "regexp option"

text \<open>\<^verbatim>\<open>Required<SpeechRecognitionOptions>\<close> (lines 20-34), the type of the state \<^verbatim>\<open>_options\<close>.\<close>

record options =
  continuous :: bool
  grammar :: string
  interimResults :: bool
  lang :: string
  maxAlternatives :: nat
  regex :: regexp
  startOnLoad :: bool
  onaudioend :: "callback option"
  onaudiostart :: "callback option"
  onend :: "callback option"
  onerror :: "callback option"
  onnomatch :: "callback option"
  onresult :: "callback option"
  onsoundend :: "callback option"
  onsoundstart :: "callback option"
  onspeechend :: "callback option"
  onspeechstart :: "callback option"
  onstart :: "callback option"

text \<open>\<^verbatim>\<open>Transcript\<close> (lines 36-41); the field \<^verbatim>\<open>id\<close> is \<open>ident\<close> here.\<close>

record Transcript =
  ident :: string
  confidence :: real
  isFinal :: bool
  transcript :: string

text \<open>
  What can sit in a notification slot of the engine: one of the three handlers of the hook,
  an arrow function \<^verbatim>\<open>e => callback(e, _options.on...)\<close> (lines 175-185), or a function of
  the caller assigned as it is (lines 178-179).
\<close>

datatype listener =
  HandleEnd | HandleResult | HandleStart | Forward slot | Supplied slot callback

text \<open>The \<^verbatim>\<open>SpeechRecognition\<close> instance \<^verbatim>\<open>recognition.current\<close>.\<close>

record engine =
  grammars :: "(string \<times> nat) list"
  r_continuous :: bool
  r_interimResults :: bool
  r_lang :: string
  r_maxAlternatives :: nat
  r_onaudioend :: "listener option"
  r_onaudiostart :: "listener option"
  r_onend :: "listener option"
  r_onerror :: "listener option"
  r_onnomatch :: "listener option"
  r_onresult :: "listener option"
  r_onsoundend :: "listener option"
  r_onsoundstart :: "listener option"
  r_onspeechend :: "listener option"
  r_onspeechstart :: "listener option"
  r_onstart :: "listener option"

text \<open>
  Everything the hook does to the outside is recorded in order: a call of the engine's
  \<^verbatim>\<open>start\<close> (with the engine as it is configured at that moment), \<^verbatim>\<open>stop\<close> or \<^verbatim>\<open>abort\<close>,
  and a call of a caller-supplied function, tagged with the options field it was read
  from. A \<^verbatim>\<open>setTimeout(f, 0)\<close> puts a task on the timer queue.
\<close>

datatype effect =
  EngineStart engine | EngineStop | EngineAbort | Invoke slot callback event

datatype task = Deferred_engine_start | Deferred_start "start_options option"

text \<open>
  The state of one mounted hook. \<open>options\<close> is the React state \<^verbatim>\<open>_options\<close>; \<open>captured\<close>
  is the \<^verbatim>\<open>_options\<close> object of the first render. The effect of the first render is the
  only one that finds \<^verbatim>\<open>isInitialized.current\<close> false, so \<^verbatim>\<open>initializeSpeechRecognition\<close> as
  it is run, and the handlers and arrow functions it assigns to the engine, close over that
  object (the handlers are created anew at every render, but only those passed to the
  engine are ever called). The \<^verbatim>\<open>RegExp\<close> object is mutated only through \<open>captured\<close>. State
  updates are applied in the order they are requested, each updater function being run
  once.
\<close>

record state =
  options :: options
  transcripts :: "Transcript list"
  liveTranscript :: string
  match :: "string option"
  recognition :: engine
  isInitialized :: bool
  isListening :: bool
  captured :: options
  timers :: "task list"
  trace :: "effect list"

section \<open>The hook\<close>

text \<open>Lines 57-76, the defaults under the caller's options.\<close>

definition default_options :: options where
  "default_options =
     \<lparr>continuous = True,
      grammar = ''#JSGF V1.0; grammar word; public <word> = hello world ;'',
      interimResults = True,
      lang = ''en-US'',
      maxAlternatives = 1,
      regex = hello_world,
      startOnLoad = True,
      onaudioend = None, onaudiostart = None, onend = None, onerror = None,
      onnomatch = None, onresult = None, onsoundend = None, onsoundstart = None,
      onspeechend = None, onspeechstart = None, onstart = None\<rparr>"

text \<open>\<^verbatim>\<open>new SpeechRecognition()\<close>: the attribute defaults of the Web Speech API.\<close>

definition new_SpeechRecognition :: engine where
  "new_SpeechRecognition =
     \<lparr>grammars = [], r_continuous = False, r_interimResults = False, r_lang = [],
      r_maxAlternatives = 1,
      r_onaudioend = None, r_onaudiostart = None, r_onend = None, r_onerror = None,
      r_onnomatch = None, r_onresult = None, r_onsoundend = None, r_onsoundstart = None,
      r_onspeechend = None, r_onspeechstart = None, r_onstart = None\<rparr>"

text \<open>
  Lines 56-88, the first render: \<open>opts\<close> is the initial \<^verbatim>\<open>_options\<close>, that is the defaults
  overridden by the caller's options.
\<close>

definition useSpeechRecognition :: "options \<Rightarrow> state" where
  "useSpeechRecognition opts =
     \<lparr>options = opts, transcripts = [], liveTranscript = [], match = None,
      recognition = new_SpeechRecognition, isInitialized = False, isListening = False,
      captured = opts, timers = [], trace = []\<rparr>"

definition engine_start :: "state \<Rightarrow> state" where
  "engine_start s = s\<lparr>trace := trace s @ [EngineStart (recognition s)]\<rparr>"

definition engine_stop :: "state \<Rightarrow> state" where
  "engine_stop s = s\<lparr>trace := trace s @ [EngineStop]\<rparr>"

definition engine_abort :: "state \<Rightarrow> state" where
  "engine_abort s = s\<lparr>trace := trace s @ [EngineAbort]\<rparr>"

text \<open>
  \<^verbatim>\<open>if (f) f(event)\<close> for the function \<open>f\<close> read from the options field \<open>sl\<close>: the state
  after the call, and the exception if the call threw.
\<close>

definition invoke :: "slot \<Rightarrow> callback option \<Rightarrow> event \<Rightarrow> state \<Rightarrow> state \<times> error option" where
  "invoke sl f ev s =
     (case f of
        None \<Rightarrow> (s, None)
      | Some g \<Rightarrow>
          (s\<lparr>trace := trace s @ [Invoke sl g ev]\<rparr>, if throws g ev then Some Thrown else None))"

definition slot_of :: "slot \<Rightarrow> options \<Rightarrow> callback option" where
  "slot_of sl opts =
     (case sl of
        OnAudioEnd \<Rightarrow> onaudioend opts | OnAudioStart \<Rightarrow> onaudiostart opts
      | OnEnd \<Rightarrow> onend opts | OnError \<Rightarrow> onerror opts | OnNoMatch \<Rightarrow> onnomatch opts
      | OnResult \<Rightarrow> onresult opts | OnSoundEnd \<Rightarrow> onsoundend opts
      | OnSoundStart \<Rightarrow> onsoundstart opts | OnSpeechEnd \<Rightarrow> onspeechend opts
      | OnSpeechStart \<Rightarrow> onspeechstart opts | OnStart \<Rightarrow> onstart opts)"

definition listener_of :: "slot \<Rightarrow> engine \<Rightarrow> listener option" where
  "listener_of sl r =
     (case sl of
        OnAudioEnd \<Rightarrow> r_onaudioend r | OnAudioStart \<Rightarrow> r_onaudiostart r
      | OnEnd \<Rightarrow> r_onend r | OnError \<Rightarrow> r_onerror r | OnNoMatch \<Rightarrow> r_onnomatch r
      | OnResult \<Rightarrow> r_onresult r | OnSoundEnd \<Rightarrow> r_onsoundend r
      | OnSoundStart \<Rightarrow> r_onsoundstart r | OnSpeechEnd \<Rightarrow> r_onspeechend r
      | OnSpeechStart \<Rightarrow> r_onspeechstart r | OnStart \<Rightarrow> r_onstart r)"

text \<open>
  Lines 90-120, \<^verbatim>\<open>handleResult\<close>. \<^verbatim>\<open>event.results.item(i)\<close> is null out of range and
  \<^verbatim>\<open>result[0]\<close> is undefined without an alternative: reading a property of either raises
  TypeError before any state is touched. \<^verbatim>\<open>matchAll\<close> raises after the transcript updates
  have been requested, so they stay. The call of \<^verbatim>\<open>_options.onresult\<close> is the last statement.
  The returned pair is the state after the call and the exception it ended with, if any.
\<close>

definition handleResult :: "real \<Rightarrow> recognition_event \<Rightarrow> state \<Rightarrow> state \<times> error option" where
  "handleResult scaled event s =
     (if length (results event) \<le> resultIndex event then (s, Some TypeError)
      else
        let result = results event ! resultIndex event in
        case alternatives result of
          [] \<Rightarrow> (s, Some TypeError)
        | alt # _ \<Rightarrow>
            let s1 = (if res_isFinal result
                      then s\<lparr>transcripts := transcripts s @
                                [\<lparr>ident = random_id scaled, confidence = alt_confidence alt,
                                  isFinal = res_isFinal result,
                                  transcript = alt_transcript alt\<rparr>],
                             liveTranscript := []\<rparr>
                      else s\<lparr>liveTranscript := alt_transcript alt\<rparr>)
            in case matchAll (alt_transcript alt) (regex (captured s1)) of
                 Inl err \<Rightarrow> (s1, Some err)
               | Inr ms \<Rightarrow>
                   let matchedColor = toLowerCase (if ms = [] then [] else last ms);
                       (found, r') = test (regex (captured s1)) matchedColor;
                       s2 = s1\<lparr>captured := (captured s1)\<lparr>regex := r'\<rparr>,
                               match := (if found then Some matchedColor else None)\<rparr>
                   in invoke OnResult (onresult (captured s2)) (Recognition event) s2)"

text \<open>
  Lines 122-128, \<^verbatim>\<open>handleStart\<close>: the call of \<^verbatim>\<open>_options.onend\<close> comes first, and the
  assignment to \<^verbatim>\<open>isListening.current\<close> is reached only if that call returns.
\<close>

definition handleStart :: "event \<Rightarrow> state \<Rightarrow> state \<times> error option" where
  "handleStart event s =
     (case invoke OnEnd (onend (captured s)) event s of
        (s1, Some err) \<Rightarrow> (s1, Some err)
      | (s1, None) \<Rightarrow> (s1\<lparr>isListening := True\<rparr>, None))"

text \<open>
  Lines 130-138, \<^verbatim>\<open>handleEnd\<close>: the engine's \<^verbatim>\<open>stop\<close>, the timer, the call of
  \<^verbatim>\<open>_options.onend\<close>, and the assignment to \<^verbatim>\<open>isListening.current\<close> if that call returns.
\<close>

definition handleEnd :: "event \<Rightarrow> state \<Rightarrow> state \<times> error option" where
  "handleEnd event s =
     (let s1 = engine_stop s;
          s2 = (if continuous (captured s1)
                then s1\<lparr>timers := timers s1 @ [Deferred_engine_start]\<rparr> else s1)
      in case invoke OnEnd (onend (captured s2)) event s2 of
           (s3, Some err) \<Rightarrow> (s3, Some err)
         | (s3, None) \<Rightarrow> (s3\<lparr>isListening := False\<rparr>, None))"

text \<open>Lines 142-145: \<^verbatim>\<open>{...prev, ...startOptions}\<close>.\<close>

definition merge :: "options \<Rightarrow> start_options \<Rightarrow> options" where
  "merge prev so =
     prev\<lparr>continuous := (case so_continuous so of None \<Rightarrow> continuous prev | Some v \<Rightarrow> v),
          grammar := (case so_grammar so of None \<Rightarrow> grammar prev | Some v \<Rightarrow> v),
          interimResults :=
            (case so_interimResults so of None \<Rightarrow> interimResults prev | Some v \<Rightarrow> v),
          lang := (case so_lang so of None \<Rightarrow> lang prev | Some v \<Rightarrow> v),
          maxAlternatives :=
            (case so_maxAlternatives so of None \<Rightarrow> maxAlternatives prev | Some v \<Rightarrow> v),
          regex := (case so_regex so of None \<Rightarrow> regex prev | Some v \<Rightarrow> v)\<rparr>"

text \<open>Lines 140-148, \<^verbatim>\<open>start\<close>.\<close>

definition start :: "start_options option \<Rightarrow> state \<Rightarrow> state" where
  "start startOptions s =
     (let s1 = (case startOptions of
                  None \<Rightarrow> s
                | Some so \<Rightarrow> s\<lparr>options := merge (options s) so\<rparr>)
      in if isListening s1 then s1 else engine_start s1)"

text \<open>Lines 150-156, \<^verbatim>\<open>restart\<close>.\<close>

definition restart :: "start_options option \<Rightarrow> state \<Rightarrow> state" where
  "restart startOptions s =
     (let s1 = engine_stop s
      in s1\<lparr>timers := timers s1 @ [Deferred_start startOptions]\<rparr>)"

text \<open>Lines 158-159, \<^verbatim>\<open>abort\<close> and \<^verbatim>\<open>stop\<close>.\<close>

definition abort :: "state \<Rightarrow> state" where
  "abort s = engine_abort s"

definition stop :: "state \<Rightarrow> state" where
  "stop s = engine_stop s"

text \<open>
  Lines 162-186: the assignments to the engine's attributes and notification slots, from
  the \<^verbatim>\<open>_options\<close> object \<open>opts\<close>.
\<close>

definition configure :: "options \<Rightarrow> engine \<Rightarrow> engine" where
  "configure opts r =
     r\<lparr>grammars := [(grammar opts, 1)],
       r_continuous := continuous opts,
       r_interimResults := interimResults opts,
       r_lang := lang opts,
       r_maxAlternatives := maxAlternatives opts,
       r_onaudioend := Some (Forward OnAudioEnd),
       r_onaudiostart := Some (Forward OnAudioStart),
       r_onend := Some HandleEnd,
       r_onerror := map_option (Supplied OnError) (onerror opts),
       r_onnomatch := map_option (Supplied OnNoMatch) (onnomatch opts),
       r_onresult := Some HandleResult,
       r_onsoundend := Some (Forward OnSoundEnd),
       r_onsoundstart := Some (Forward OnSoundStart),
       r_onspeechend := Some (Forward OnSpeechEnd),
       r_onspeechstart := Some (Forward OnSpeechStart),
       r_onstart := Some HandleStart\<rparr>"

text \<open>
  Lines 161-191, \<^verbatim>\<open>initializeSpeechRecognition\<close> as the effect of the first render calls
  it: its \<^verbatim>\<open>_options\<close> is the object of the first render, \<open>captured s\<close>, whatever
  \<^verbatim>\<open>setOptions\<close> has been asked since.
\<close>

definition initializeSpeechRecognition :: "state \<Rightarrow> state" where
  "initializeSpeechRecognition s =
     (let opts = captured s;
          s1 = s\<lparr>recognition := configure opts (recognition s), isInitialized := True\<rparr>
      in if startOnLoad opts then engine_start s1 else s1)"

text \<open>Lines 211-213, the effect.\<close>

definition useEffect :: "state \<Rightarrow> state" where
  "useEffect s = (if \<not> isInitialized s then initializeSpeechRecognition s else s)"

section \<open>Runs of the hook\<close>

text \<open>
  The engine delivers a notification by calling what sits in the slot. A listener that
  raises leaves the state it had reached, and the exception goes to the host; an event
  without results raises at line 92.
\<close>

definition dispatch :: "listener option \<Rightarrow> real \<Rightarrow> event \<Rightarrow> state \<Rightarrow> state" where
  "dispatch l scaled ev s =
     (case l of
        None \<Rightarrow> s
      | Some HandleEnd \<Rightarrow> fst (handleEnd ev s)
      | Some HandleStart \<Rightarrow> fst (handleStart ev s)
      | Some HandleResult \<Rightarrow>
          (case ev of Recognition e \<Rightarrow> fst (handleResult scaled e s) | Plain _ \<Rightarrow> s)
      | Some (Forward sl) \<Rightarrow> fst (invoke sl (slot_of sl (captured s)) ev s)
      | Some (Supplied sl f) \<Rightarrow> fst (invoke sl (Some f) ev s))"

text \<open>The timer queue runs its oldest task.\<close>

definition run_timer :: "state \<Rightarrow> state" where
  "run_timer s =
     (case timers s of
        [] \<Rightarrow> s
      | Deferred_engine_start # ts \<Rightarrow> engine_start (s\<lparr>timers := ts\<rparr>)
      | Deferred_start so # ts \<Rightarrow> start so (s\<lparr>timers := ts\<rparr>))"

text \<open>
  What can happen to a mounted hook: the effect runs, the caller uses the control surface,
  a timer fires, or the engine delivers the notification of a slot (\<open>scaled\<close> is the value
  of \<^verbatim>\<open>Math.random() * 1000000000000\<close> if the handler computes it).
\<close>

datatype action =
  Effect | Start "start_options option" | Restart "start_options option"
  | Abort | Stop | Timeout | Notify slot real event

fun step :: "action \<Rightarrow> state \<Rightarrow> state" where
  "step Effect s = useEffect s"
| "step (Start so) s = start so s"
| "step (Restart so) s = restart so s"
| "step Abort s = abort s"
| "step Stop s = stop s"
| "step Timeout s = run_timer s"
| "step (Notify sl scaled ev) s = dispatch (listener_of sl (recognition s)) scaled ev s"

fun run :: "action list \<Rightarrow> state \<Rightarrow> state" where
  "run [] s = s"
| "run (a # as) s = run as (step a s)"

text \<open>A sequence of result notifications handled one after the other.\<close>

fun handleResults :: "(real \<times> recognition_event) list \<Rightarrow> state \<Rightarrow> state" where
  "handleResults [] s = s"
| "handleResults ((scaled, ev) # evs) s = handleResults evs (fst (handleResult scaled ev s))"

text \<open>A result event as the engine delivers it: the index names a result that has an alternative.\<close>

definition well_formed :: "recognition_event \<Rightarrow> bool" where
  "well_formed ev =
     (resultIndex ev < length (results ev) \<and>
      alternatives (results ev ! resultIndex ev) \<noteq> [])"

definition final :: "recognition_event \<Rightarrow> bool" where
  "final ev = res_isFinal (results ev ! resultIndex ev)"

definition best :: "recognition_event \<Rightarrow> alternative" where
  "best ev = hd (alternatives (results ev ! resultIndex ev))"

text \<open>An event that carries one result with one alternative.\<close>

definition single_result :: "bool \<Rightarrow> string \<Rightarrow> real \<Rightarrow> recognition_event" where
  "single_result fin t c =
     \<lparr>resultIndex = 0,
      results = [\<lparr>res_isFinal = fin,
                  alternatives = [\<lparr>alt_transcript = t, alt_confidence = c\<rparr>]\<rparr>]\<rparr>"

text \<open>A function of the caller that returns from every call, and one that throws at every call.\<close>

definition returning :: "nat \<Rightarrow> callback" where
  "returning n = \<lparr>fn = n, throws = (\<lambda>ev. False)\<rparr>"

definition throwing :: "nat \<Rightarrow> callback" where
  "throwing n = \<lparr>fn = n, throws = (\<lambda>ev. True)\<rparr>"

section \<open>Invariants of a run\<close>

text \<open>
  The engine is untouched until \<^verbatim>\<open>initializeSpeechRecognition\<close> has run, and from then on
  it is configured from the \<^verbatim>\<open>_options\<close> object captured at that moment.
\<close>

definition wired :: "state \<Rightarrow> bool" where
  "wired s =
     (recognition s =
        (if isInitialized s then configure (captured s) new_SpeechRecognition
         else new_SpeechRecognition))"

text \<open>A list of effects without a call of a function read from the field \<^verbatim>\<open>onstart\<close>.\<close>

definition quiet :: "effect list \<Rightarrow> bool" where
  "quiet es = (\<forall>x \<in> set es. case x of Invoke sl f ev \<Rightarrow> sl \<noteq> OnStart | _ \<Rightarrow> True)"

section \<open>What each handler and operation changes\<close>

lemma configure_regex [simp]: "configure (opts\<lparr>regex := r\<rparr>) e = configure opts e"
  by (simp add: configure_def)

lemma configure_absorb [simp]: "configure opts (configure opts' e) = configure opts e"
  by (simp add: configure_def)

lemma invoke_frame [simp]:
  "recognition (fst (invoke sl f ev s)) = recognition s"
  "isInitialized (fst (invoke sl f ev s)) = isInitialized s"
  "isListening (fst (invoke sl f ev s)) = isListening s"
  "captured (fst (invoke sl f ev s)) = captured s"
  "options (fst (invoke sl f ev s)) = options s"
  "timers (fst (invoke sl f ev s)) = timers s"
  "transcripts (fst (invoke sl f ev s)) = transcripts s"
  "liveTranscript (fst (invoke sl f ev s)) = liveTranscript s"
  "match (fst (invoke sl f ev s)) = match s"
  by (simp_all add: invoke_def split: option.split)

lemma invoke_trace:
  "trace (fst (invoke sl f ev s)) =
     trace s @ (case f of None \<Rightarrow> [] | Some g \<Rightarrow> [Invoke sl g ev])"
  by (simp add: invoke_def split: option.split)

lemma invoke_outcome:
  "snd (invoke sl f ev s) =
     (case f of None \<Rightarrow> None | Some g \<Rightarrow> if throws g ev then Some Thrown else None)"
  by (simp add: invoke_def split: option.split)

lemma handleResult_frame:
  "recognition (fst (handleResult scaled e s)) = recognition s"
  "isInitialized (fst (handleResult scaled e s)) = isInitialized s"
  "isListening (fst (handleResult scaled e s)) = isListening s"
  "options (fst (handleResult scaled e s)) = options s"
  "timers (fst (handleResult scaled e s)) = timers s"
  by (simp_all add: handleResult_def Let_def split: list.split sum.split prod.split)

lemma handleResult_captured:
  "captured (fst (handleResult scaled e s)) =
     (captured s)\<lparr>regex := regex (captured (fst (handleResult scaled e s)))\<rparr>"
  by (simp add: handleResult_def Let_def split: list.split sum.split prod.split)

lemma handleResult_trace:
  "\<exists>es. trace (fst (handleResult scaled e s)) = trace s @ es \<and> (\<forall>x \<in> set es. \<exists>f ev. x = Invoke OnResult f ev)"
  by (auto simp add: handleResult_def Let_def invoke_trace split: list.split sum.split prod.split option.split)

lemma listener_of_configure:
  "listener_of sl (configure opts e) =
     (case sl of
        OnEnd \<Rightarrow> Some HandleEnd
      | OnStart \<Rightarrow> Some HandleStart
      | OnResult \<Rightarrow> Some HandleResult
      | OnError \<Rightarrow> map_option (Supplied OnError) (onerror opts)
      | OnNoMatch \<Rightarrow> map_option (Supplied OnNoMatch) (onnomatch opts)
      | _ \<Rightarrow> Some (Forward sl))"
  by (cases sl) (simp_all add: listener_of_def configure_def)

lemma listener_of_new [simp]: "listener_of sl new_SpeechRecognition = None"
  by (cases sl) (simp_all add: listener_of_def new_SpeechRecognition_def)

lemma handleStart_frame [simp]:
  "recognition (fst (handleStart ev s)) = recognition s"
  "isInitialized (fst (handleStart ev s)) = isInitialized s"
  "captured (fst (handleStart ev s)) = captured s"
  "options (fst (handleStart ev s)) = options s"
  "timers (fst (handleStart ev s)) = timers s"
  by (simp_all add: handleStart_def invoke_def split: option.split)

lemma handleStart_listening:
  "isListening (fst (handleStart ev s)) =
     (case onend (captured s) of
        None \<Rightarrow> True
      | Some f \<Rightarrow> if throws f ev then isListening s else True)"
  by (simp add: handleStart_def invoke_def split: option.split)

lemma handleStart_trace:
  "trace (fst (handleStart ev s)) =
     trace s @ (case onend (captured s) of None \<Rightarrow> [] | Some f \<Rightarrow> [Invoke OnEnd f ev])"
  by (simp add: handleStart_def invoke_def split: option.split)

lemma handleEnd_frame [simp]:
  "recognition (fst (handleEnd ev s)) = recognition s"
  "isInitialized (fst (handleEnd ev s)) = isInitialized s"
  "captured (fst (handleEnd ev s)) = captured s"
  "options (fst (handleEnd ev s)) = options s"
  by (simp_all add: handleEnd_def engine_stop_def invoke_def Let_def split: option.split)

lemma handleEnd_listening:
  "isListening (fst (handleEnd ev s)) =
     (case onend (captured s) of
        None \<Rightarrow> False
      | Some f \<Rightarrow> if throws f ev then isListening s else False)"
  by (simp add: handleEnd_def engine_stop_def invoke_def Let_def split: option.split)

lemma handleEnd_trace:
  "trace (fst (handleEnd ev s)) =
     trace s @ EngineStop #
       (case onend (captured s) of None \<Rightarrow> [] | Some f \<Rightarrow> [Invoke OnEnd f ev])"
  by (simp add: handleEnd_def engine_stop_def invoke_def Let_def split: option.split)

lemma handleEnd_timers:
  "timers (fst (handleEnd ev s)) =
     timers s @ (if continuous (captured s) then [Deferred_engine_start] else [])"
  by (simp add: handleEnd_def engine_stop_def invoke_def Let_def split: option.split)

lemma start_frame [simp]:
  "recognition (start so s) = recognition s"
  "isInitialized (start so s) = isInitialized s"
  "captured (start so s) = captured s"
  "timers (start so s) = timers s"
  "isListening (start so s) = isListening s"
  by (simp_all add: start_def engine_start_def Let_def split: option.split)

lemma start_trace:
  "trace (start so s) = trace s @ (if isListening s then [] else [EngineStart (recognition s)])"
  by (simp add: start_def engine_start_def Let_def split: option.split)

lemma restart_frame [simp]:
  "recognition (restart so s) = recognition s"
  "isInitialized (restart so s) = isInitialized s"
  "captured (restart so s) = captured s"
  "options (restart so s) = options s"
  "isListening (restart so s) = isListening s"
  "trace (restart so s) = trace s @ [EngineStop]"
  "timers (restart so s) = timers s @ [Deferred_start so]"
  by (simp_all add: restart_def engine_stop_def Let_def)

lemma run_timer_frame [simp]:
  "recognition (run_timer s) = recognition s"
  "isInitialized (run_timer s) = isInitialized s"
  "captured (run_timer s) = captured s"
  "isListening (run_timer s) = isListening s"
  by (simp_all add: run_timer_def engine_start_def split: list.split task.split)

lemma run_timer_trace:
  "\<exists>es. trace (run_timer s) = trace s @ es \<and> quiet es"
  by (simp add: run_timer_def engine_start_def start_trace quiet_def split: list.split task.split)

lemma dispatch_frame:
  "recognition (dispatch l scaled ev s) = recognition s"
  "isInitialized (dispatch l scaled ev s) = isInitialized s"
  "options (dispatch l scaled ev s) = options s"
  by (simp_all add: dispatch_def handleResult_frame split: option.split listener.split event.split)

lemma dispatch_captured:
  "captured (dispatch l scaled ev s) =
     (captured s)\<lparr>regex := regex (captured (dispatch l scaled ev s))\<rparr>"
  using handleResult_captured
  by (simp add: dispatch_def split: option.split listener.split event.split)

lemma wired_initial: "wired (useSpeechRecognition opts)"
  by (simp add: wired_def useSpeechRecognition_def)

lemma wired_useEffect: "wired s \<Longrightarrow> wired (useEffect s)"
  by (simp add: wired_def useEffect_def initializeSpeechRecognition_def engine_start_def Let_def
      configure_def new_SpeechRecognition_def)

lemma wired_dispatch: "wired s \<Longrightarrow> wired (dispatch l scaled ev s)"
proof -
  assume w: "wired s"
  have "configure (captured (dispatch l scaled ev s)) new_SpeechRecognition =
        configure (captured s) new_SpeechRecognition"
    by (subst dispatch_captured) simp
  with w show ?thesis
    by (simp add: wired_def dispatch_frame)
qed

lemma wired_step: "wired s \<Longrightarrow> wired (step a s)"
proof (cases a)
  case Effect
  assume "wired s"
  with Effect show ?thesis by (simp add: wired_useEffect)
next
  case (Notify sl scaled ev)
  assume "wired s"
  with Notify show ?thesis by (simp add: wired_dispatch)
qed (simp_all add: wired_def abort_def stop_def engine_abort_def engine_stop_def)

lemma wired_run: "wired s \<Longrightarrow> wired (run acts s)"
  by (induction acts arbitrary: s) (simp_all add: wired_step)

lemma quiet_append [simp]: "quiet (xs @ ys) = (quiet xs \<and> quiet ys)"
  by (auto simp: quiet_def)

lemma quiet_Nil [simp]: "quiet []"
  by (simp add: quiet_def)

lemma quiet_result:
  "\<forall>x \<in> set es. \<exists>f ev. x = Invoke OnResult f ev \<Longrightarrow> quiet es"
  by (auto simp: quiet_def)

lemma useEffect_trace: "\<exists>es. trace (useEffect s) = trace s @ es \<and> quiet es"
  by (simp add: useEffect_def initializeSpeechRecognition_def engine_start_def Let_def quiet_def)

lemma dispatch_trace:
  assumes "wired s"
  shows "\<exists>es. trace (dispatch (listener_of sl (recognition s)) scaled ev s) = trace s @ es \<and> quiet es"
proof (cases "isInitialized s")
  case False
  with assms show ?thesis by (simp add: wired_def dispatch_def)
next
  case True
  with assms have r: "recognition s = configure (captured s) new_SpeechRecognition"
    by (simp add: wired_def)
  show ?thesis
  proof (cases sl)
    case OnResult
    show ?thesis
    proof (cases ev)
      case (Plain n)
      with OnResult r show ?thesis by (simp add: listener_of_configure dispatch_def)
    next
      case (Recognition e)
      from handleResult_trace [of scaled e s] obtain es where
        "trace (fst (handleResult scaled e s)) = trace s @ es"
        "\<forall>x \<in> set es. \<exists>f ev. x = Invoke OnResult f ev" by blast
      with OnResult r Recognition show ?thesis
        by (simp add: listener_of_configure dispatch_def quiet_result)
    qed
  qed (auto simp add: r listener_of_configure dispatch_def invoke_trace handleEnd_trace
        handleStart_trace slot_of_def quiet_def split: option.split)
qed

lemma step_trace:
  assumes "wired s"
  shows "\<exists>es. trace (step a s) = trace s @ es \<and> quiet es"
proof (cases a)
  case Effect
  then show ?thesis by (simp add: useEffect_trace)
next
  case (Start so)
  then show ?thesis by (simp add: start_trace quiet_def)
next
  case (Restart so)
  then show ?thesis by (simp add: quiet_def)
next
  case Abort
  then show ?thesis by (simp add: abort_def engine_abort_def quiet_def)
next
  case Stop
  then show ?thesis by (simp add: stop_def engine_stop_def quiet_def)
next
  case Timeout
  then show ?thesis by (simp add: run_timer_trace)
next
  case (Notify sl scaled ev)
  with assms show ?thesis by (simp add: dispatch_trace)
qed

lemma run_trace:
  "wired s \<Longrightarrow> \<exists>es. trace (run acts s) = trace s @ es \<and> quiet es"
proof (induction acts arbitrary: s)
  case Nil
  then show ?case by simp
next
  case (Cons a acts)
  from step_trace [OF Cons.prems, of a] obtain es where
    e: "trace (step a s) = trace s @ es" "quiet es" by blast
  from Cons.IH [OF wired_step [OF Cons.prems], of a] obtain es' where
    e': "trace (run acts (step a s)) = trace (step a s) @ es'" "quiet es'" by blast
  from e e' show ?case by simp
qed

lemma hex_digit_inj:
  assumes "a < 16" "b < 16" "hex_digit a = hex_digit b"
  shows "a = b"
proof -
  have d: "distinct ''0123456789abcdef''" by simp
  have l: "length ''0123456789abcdef'' = 16" by simp
  from assms show ?thesis
    unfolding hex_digit_def using nth_eq_iff_index_eq [OF d, of a b] l by simp
qed

lemma toString16_small: "n < 16 \<Longrightarrow> toString16 n = [hex_digit n]"
  by (subst toString16.simps) simp

lemma toString16_large:
  "\<not> n < 16 \<Longrightarrow> toString16 n = toString16 (n div 16) @ [hex_digit (n mod 16)]"
  by (subst toString16.simps) simp

lemma toString16_nonempty: "toString16 n \<noteq> []"
  by (cases "n < 16") (simp_all add: toString16_small toString16_large)

lemma toString16_inj: "toString16 m = toString16 n \<Longrightarrow> m = n"
proof (induction m arbitrary: n rule: toString16.induct)
  case (1 m)
  show ?case
  proof (cases "m < 16")
    case True
    note m = this
    show ?thesis
    proof (cases "n < 16")
      case True
      with m "1.prems" show ?thesis
        by (simp add: toString16_small hex_digit_inj)
    next
      case False
      with m "1.prems" toString16_nonempty [of "n div 16"] show ?thesis
        by (simp add: toString16_small toString16_large)
    qed
  next
    case False
    note m = this
    show ?thesis
    proof (cases "n < 16")
      case True
      with m "1.prems" toString16_nonempty [of "m div 16"] show ?thesis
        by (simp add: toString16_small toString16_large)
    next
      case False
      with m "1.prems" have e: "toString16 (m div 16) = toString16 (n div 16)"
        and h: "hex_digit (m mod 16) = hex_digit (n mod 16)"
        by (simp_all add: toString16_large)
      from "1.IH" [OF m e] have "m div 16 = n div 16" .
      moreover from h have "m mod 16 = n mod 16"
        by (intro hex_digit_inj) simp_all
      ultimately show ?thesis
        by (metis div_mult_mod_eq)
    qed
  qed
qed

lemma random_id_eq_iff:
  "random_id a = random_id b \<longleftrightarrow> nat \<lfloor>a\<rfloor> = nat \<lfloor>b\<rfloor>"
  unfolding random_id_def by (auto dest: toString16_inj)

lemma handleResult_interim:
  assumes "well_formed ev" "\<not> final ev"
  shows "transcripts (fst (handleResult scaled ev s)) = transcripts s"
    and "liveTranscript (fst (handleResult scaled ev s)) = alt_transcript (best ev)"
  using assms
  by (simp_all add: handleResult_def well_formed_def final_def best_def Let_def
      split: list.split sum.split prod.split)

lemma handleResult_final:
  assumes "well_formed ev" "final ev"
  shows "transcripts (fst (handleResult scaled ev s)) =
           transcripts s @ [\<lparr>ident = random_id scaled, confidence = alt_confidence (best ev),
                             isFinal = True, transcript = alt_transcript (best ev)\<rparr>]"
    and "liveTranscript (fst (handleResult scaled ev s)) = []"
  using assms
  by (simp_all add: handleResult_def well_formed_def final_def best_def Let_def
      split: list.split sum.split prod.split)

lemma handleResults_interim:
  "\<forall>(scaled, ev) \<in> set evs. well_formed ev \<and> \<not> final ev \<Longrightarrow>
     transcripts (handleResults evs s) = transcripts s"
  by (induction evs arbitrary: s) (auto simp: handleResult_interim)

lemma handleResults_append:
  "handleResults (evs @ evs') s = handleResults evs' (handleResults evs s)"
  by (induction evs arbitrary: s) auto

lemma handleResult_trace_any: "\<exists>es. trace (fst (handleResult scaled e s)) = trace s @ es"
  using handleResult_trace [of scaled e s] by blast

lemma step_trace_any: "\<exists>es. trace (step a s) = trace s @ es"
proof (cases a)
  case (Notify sl scaled ev)
  show ?thesis
  proof (cases "listener_of sl (recognition s)")
    case None
    with Notify show ?thesis by (simp add: dispatch_def)
  next
    case (Some l)
    with Notify show ?thesis
      by (cases l; cases ev)
        (simp_all add: dispatch_def handleEnd_trace handleStart_trace invoke_trace
          handleResult_trace_any)
  qed
next
  case Timeout
  with run_timer_trace [of s] show ?thesis by auto
next
  case Effect
  with useEffect_trace [of s] show ?thesis by auto
qed (simp_all add: start_trace abort_def stop_def engine_abort_def engine_stop_def)

lemma run_trace_any: "\<exists>es. trace (run acts s) = trace s @ es"
proof (induction acts arbitrary: s)
  case Nil
  then show ?case by simp
next
  case (Cons a acts)
  from step_trace_any [of a s] obtain es where "trace (step a s) = trace s @ es" ..
  moreover from Cons.IH [of "step a s"] obtain es' where
    "trace (run acts (step a s)) = trace (step a s) @ es'" ..
  ultimately show ?case by simp
qed

lemma step_engine_frozen:
  "isInitialized s \<Longrightarrow> recognition (step a s) = recognition s \<and> isInitialized (step a s)"
  by (cases a)
    (simp_all add: useEffect_def abort_def stop_def engine_abort_def engine_stop_def
      dispatch_frame)

lemma run_engine_frozen:
  "isInitialized s \<Longrightarrow> recognition (run acts s) = recognition s \<and> isInitialized (run acts s)"
proof (induction acts arbitrary: s)
  case Nil
  then show ?case by simp
next
  case (Cons a acts)
  from step_engine_frozen [OF Cons.prems, of a] Cons.IH [of "step a s"]
  show ?case by simp
qed

lemma step_captured:
  "captured (step a s) = (captured s)\<lparr>regex := regex (captured (step a s))\<rparr>"
proof (cases a)
  case (Notify sl scaled ev)
  then show ?thesis using dispatch_captured by simp
qed (simp_all add: useEffect_def initializeSpeechRecognition_def engine_start_def Let_def
      abort_def stop_def engine_abort_def engine_stop_def)

lemma run_captured:
  "captured (run acts s) = (captured s)\<lparr>regex := regex (captured (run acts s))\<rparr>"
proof (induction acts arbitrary: s)
  case Nil
  show ?case by simp
next
  case (Cons a acts)
  have "captured (run acts (step a s)) =
          (captured (step a s))\<lparr>regex := regex (captured (run acts (step a s)))\<rparr>"
    by (rule Cons.IH)
  also have "\<dots> = (captured s)\<lparr>regex := regex (captured (run acts (step a s)))\<rparr>"
    by (subst step_captured) simp
  finally show ?case by simp
qed

lemma run_captured_initial:
  "captured (run acts (useSpeechRecognition opts)) =
     opts\<lparr>regex := regex (captured (run acts (useSpeechRecognition opts)))\<rparr>"
  using run_captured [of acts "useSpeechRecognition opts"]
  by (simp add: useSpeechRecognition_def)

lemma run_first_render:
  "onend (captured (run acts (useSpeechRecognition opts))) = onend opts"
  "continuous (captured (run acts (useSpeechRecognition opts))) = continuous opts"
  by (subst run_captured_initial, simp)+

lemmas toString16_numeral =
  toString16.simps [of "numeral k"] toString16.simps [of 0] toString16.simps [of 1] for k

lemmas hook_defs =
  useSpeechRecognition_def default_options_def new_SpeechRecognition_def useEffect_def
  initializeSpeechRecognition_def configure_def engine_start_def engine_stop_def
  engine_abort_def dispatch_def listener_of_def slot_of_def invoke_def handleStart_def
  handleEnd_def start_def restart_def stop_def abort_def run_timer_def merge_def Let_def

section \<open>The end notification and continuous mode\<close>

text \<open>
  What the end notification does in any state a mounted hook can reach, once the engine is
  initialised: the engine's \<^verbatim>\<open>stop\<close>, one deferred call of the engine's \<^verbatim>\<open>start\<close> if the
  \<^verbatim>\<open>continuous\<close> field of the first render's \<^verbatim>\<open>_options\<close> is true, the caller's \<^verbatim>\<open>onend\<close>
  of that object, and the listening flag cleared unless that call throws.
\<close>

lemma end_notification_wired:
  assumes "s = run acts (useSpeechRecognition opts)" and "isInitialized s"
  shows "let s' = step (Notify OnEnd scaled ev) s in
           trace s' = trace s @ EngineStop #
             (case onend opts of None \<Rightarrow> [] | Some f \<Rightarrow> [Invoke OnEnd f ev]) \<and>
           timers s' = timers s @ (if continuous opts then [Deferred_engine_start] else []) \<and>
           isListening s' =
             (case onend opts of
                None \<Rightarrow> False
              | Some f \<Rightarrow> if throws f ev then isListening s else False)"
proof -
  have w: "wired s"
    using assms by (simp add: wired_run wired_initial)
  with assms(2) have r: "recognition s = configure (captured s) new_SpeechRecognition"
    by (simp add: wired_def)
  have d: "step (Notify OnEnd scaled ev) s = fst (handleEnd ev s)"
    by (simp add: r listener_of_configure dispatch_def)
  have o: "onend (captured s) = onend opts" "continuous (captured s) = continuous opts"
    unfolding assms(1) by (rule run_first_render)+
  show ?thesis
    unfolding Let_def d
    by (simp add: handleEnd_trace handleEnd_timers handleEnd_listening o)
qed

text \<open>
  Claim C1. The hook is mounted with \<^verbatim>\<open>startOnLoad\<close> false; after the effect the caller calls
  \<^verbatim>\<open>start\<close> with an override of \<^verbatim>\<open>continuous\<close>, the engine reports its start and then its
  end. Mounted continuous and overridden to false, \<^verbatim>\<open>_options.continuous\<close> is false, yet the
  end notification schedules the engine's \<^verbatim>\<open>start\<close>, and the timer starts the engine again.
  Mounted non-continuous and overridden to true, \<^verbatim>\<open>_options.continuous\<close> is true and nothing
  is scheduled. The \<^verbatim>\<open>handleEnd\<close> that the engine calls is the one of the first render.
\<close>

theorem end_notification_ignores_overrides:
  "let off = \<lparr>so_continuous = Some False, so_grammar = None, so_interimResults = None,
               so_lang = None, so_maxAlternatives = None, so_regex = None\<rparr>;
       s = run [Effect, Start (Some off), Notify OnStart 0 (Plain 0), Notify OnEnd 0 (Plain 1)]
             (useSpeechRecognition (default_options\<lparr>startOnLoad := False\<rparr>));
       on = \<lparr>so_continuous = Some True, so_grammar = None, so_interimResults = None,
              so_lang = None, so_maxAlternatives = None, so_regex = None\<rparr>;
       t = run [Effect, Start (Some on), Notify OnStart 0 (Plain 0), Notify OnEnd 0 (Plain 1)]
             (useSpeechRecognition (default_options\<lparr>startOnLoad := False, continuous := False\<rparr>))
   in \<not> continuous (options s) \<and> timers s = [Deferred_engine_start] \<and>
      trace (step Timeout s) =
        [EngineStart (recognition s), EngineStop, EngineStart (recognition s)] \<and>
      continuous (options t) \<and> timers t = [] \<and> \<not> isListening t"
  by (simp add: hook_defs)

section \<open>The transcript ledger\<close>

text \<open>
  Claim C2. After any number of interim results followed by one final result (each event
  naming a result that has an alternative), the ledger is the ledger from before the
  sequence with exactly one entry appended, built from the final result's best alternative,
  and the live transcript is empty.
\<close>

theorem interim_then_final:
  assumes "\<forall>(r, e) \<in> set evs. well_formed e \<and> \<not> final e"
    and "well_formed ev" and "final ev"
  shows "transcripts (handleResults (evs @ [(scaled, ev)]) s) =
           transcripts s @ [\<lparr>ident = random_id scaled, confidence = alt_confidence (best ev),
                             isFinal = True, transcript = alt_transcript (best ev)\<rparr>] \<and>
         liveTranscript (handleResults (evs @ [(scaled, ev)]) s) = []"
  using assms by (simp add: handleResults_append handleResult_final handleResults_interim)

theorem interim_then_final_witness:
  "transcripts
     (handleResults
        ([(0, single_result False ''hel'' (1/2))] @ [(500000000000, single_result True ''hello'' (9/10))])
        (useSpeechRecognition default_options)) =
     [\<lparr>ident = ''746a528800'', confidence = 9/10, isFinal = True, transcript = ''hello''\<rparr>] \<and>
   liveTranscript
     (handleResults
        ([(0, single_result False ''hel'' (1/2))] @ [(500000000000, single_result True ''hello'' (9/10))])
        (useSpeechRecognition default_options)) = []"
proof -
  have i: "\<forall>(r, e) \<in> set [(0::real, single_result False ''hel'' (1/2))]. well_formed e \<and> \<not> final e"
    by (simp add: well_formed_def final_def single_result_def)
  have w: "well_formed (single_result True ''hello'' (9/10))"
    by (simp add: well_formed_def single_result_def)
  have f: "final (single_result True ''hello'' (9/10))"
    by (simp add: final_def single_result_def)
  have r: "random_id 500000000000 = ''746a528800''"
    by (simp add: random_id_def toString16_numeral hex_digit_def)
  have b: "best (single_result True ''hello'' (9/10)) = \<lparr>alt_transcript = ''hello'', alt_confidence = 9/10\<rparr>"
    by (simp add: best_def single_result_def)
  from interim_then_final [OF i w f, of 500000000000 "useSpeechRecognition default_options"]
  show ?thesis by (simp add: r b useSpeechRecognition_def)
qed

text \<open>
  Claim C8. After every event of a sequence of interim results (each event naming a result
  that has an alternative), the ledger is what it was before the sequence and the live
  transcript is the text of the event handled last.
\<close>

theorem interim_only:
  assumes "\<forall>(r, e) \<in> set evs. well_formed e \<and> \<not> final e"
    and "well_formed ev" and "\<not> final ev"
  shows "transcripts (handleResults (evs @ [(scaled, ev)]) s) = transcripts s \<and>
         liveTranscript (handleResults (evs @ [(scaled, ev)]) s) = alt_transcript (best ev)"
  using assms by (simp add: handleResults_append handleResult_interim handleResults_interim)

theorem interim_only_witness:
  "transcripts
     (handleResults
        ([(0, single_result False ''hel'' (1/2))] @ [(0, single_result False ''hello'' (3/5))])
        (useSpeechRecognition default_options)) = [] \<and>
   liveTranscript
     (handleResults
        ([(0, single_result False ''hel'' (1/2))] @ [(0, single_result False ''hello'' (3/5))])
        (useSpeechRecognition default_options)) = ''hello''"
proof -
  have i: "\<forall>(r, e) \<in> set [(0::real, single_result False ''hel'' (1/2))]. well_formed e \<and> \<not> final e"
    by (simp add: well_formed_def final_def single_result_def)
  have w: "well_formed (single_result False ''hello'' (3/5))"
    by (simp add: well_formed_def single_result_def)
  have f: "\<not> final (single_result False ''hello'' (3/5))"
    by (simp add: final_def single_result_def)
  have b: "best (single_result False ''hello'' (3/5)) = \<lparr>alt_transcript = ''hello'', alt_confidence = 3/5\<rparr>"
    by (simp add: best_def single_result_def)
  from interim_only [OF i w f, of 0 "useSpeechRecognition default_options"]
  show ?thesis by (simp add: b useSpeechRecognition_def)
qed

text \<open>
  Claim C9, as amended. Two consecutive final results append two entries, in arrival order,
  with the confidence and the text of the two events. Their ids differ exactly when the
  integer parts of the two values of \<^verbatim>\<open>Math.random() * 1000000000000\<close> differ: the id is the
  hexadecimal numeral of that integer part, and nothing else keeps ids apart.
\<close>

theorem consecutive_finals:
  assumes "well_formed ev1" and "final ev1" and "well_formed ev2" and "final ev2"
  shows "transcripts (handleResults [(scaled1, ev1), (scaled2, ev2)] s) =
           transcripts s @
             [\<lparr>ident = random_id scaled1, confidence = alt_confidence (best ev1),
               isFinal = True, transcript = alt_transcript (best ev1)\<rparr>,
              \<lparr>ident = random_id scaled2, confidence = alt_confidence (best ev2),
               isFinal = True, transcript = alt_transcript (best ev2)\<rparr>] \<and>
         (random_id scaled1 \<noteq> random_id scaled2 \<longleftrightarrow>
            nat \<lfloor>scaled1\<rfloor> \<noteq> nat \<lfloor>scaled2\<rfloor>)"
  using assms by (simp add: handleResult_final random_id_eq_iff)

theorem consecutive_finals_witness:
  "transcripts
     (handleResults
        [(500000000000, single_result True ''first'' (9/10)),
         (0, single_result True ''second'' (4/5))]
        (useSpeechRecognition default_options)) =
     [\<lparr>ident = ''746a528800'', confidence = 9/10, isFinal = True, transcript = ''first''\<rparr>,
      \<lparr>ident = ''0'', confidence = 4/5, isFinal = True, transcript = ''second''\<rparr>]"
proof -
  have w1: "well_formed (single_result True ''first'' (9/10))"
    and w2: "well_formed (single_result True ''second'' (4/5))"
    by (simp_all add: well_formed_def single_result_def)
  have f1: "final (single_result True ''first'' (9/10))"
    and f2: "final (single_result True ''second'' (4/5))"
    by (simp_all add: final_def single_result_def)
  have r: "random_id 500000000000 = ''746a528800''" "random_id 0 = ''0''"
    by (simp_all add: random_id_def toString16_numeral hex_digit_def)
  have b: "best (single_result True ''first'' (9/10)) = \<lparr>alt_transcript = ''first'', alt_confidence = 9/10\<rparr>"
    "best (single_result True ''second'' (4/5)) = \<lparr>alt_transcript = ''second'', alt_confidence = 4/5\<rparr>"
    by (simp_all add: best_def single_result_def)
  from consecutive_finals [OF w1 f1 w2 f2, of 500000000000 0 "useSpeechRecognition default_options"]
  show ?thesis by (simp add: r b useSpeechRecognition_def)
qed

text \<open>
  The draws 0.5 and 0.5000000000001 of \<^verbatim>\<open>Math.random()\<close>: the doubles that the
  multiplication by 1000000000000 returns are 500000000000 and 8192000000001639 / 16384
  (about 500000000000.1), and the two entries get the same id.
\<close>

theorem consecutive_finals_same_id:
  "map ident (transcripts
     (handleResults
        [(500000000000, single_result True ''first'' (9/10)),
         (8192000000001639 / 16384, single_result True ''second'' (4/5))]
        (useSpeechRecognition default_options))) = [''746a528800'', ''746a528800'']"
proof -
  have w1: "well_formed (single_result True ''first'' (9/10))"
    and w2: "well_formed (single_result True ''second'' (4/5))"
    by (simp_all add: well_formed_def single_result_def)
  have f1: "final (single_result True ''first'' (9/10))"
    and f2: "final (single_result True ''second'' (4/5))"
    by (simp_all add: final_def single_result_def)
  have r: "random_id 500000000000 = ''746a528800''"
    "random_id (8192000000001639 / 16384) = ''746a528800''"
    by (simp_all add: random_id_def toString16_numeral hex_digit_def)
  show ?thesis
    by (simp add: handleResult_final [OF w1 f1] handleResult_final [OF w2 f2] r
        useSpeechRecognition_def)
qed

section \<open>The pattern match\<close>

text \<open>
  Claim C3. The regular expression object of the handler keeps its \<^verbatim>\<open>lastIndex\<close> between
  events: \<^verbatim>\<open>test\<close> advances it when the re-test succeeds, and both \<^verbatim>\<open>matchAll\<close> and
  \<^verbatim>\<open>test\<close> start from it at the next event. With the default pattern, the text
  \<^verbatim>\<open>"I said hello world twice: hello world"\<close> stores its rightmost match when it is the
  first event, and stores no match when it comes right after an event that matched.
\<close>

theorem rightmost_match_dropped:
  "match (run [Effect,
               Notify OnResult 0
                 (Recognition (single_result False ''I said hello world twice: hello world'' 1))]
            (useSpeechRecognition default_options)) = Some ''hello world'' \<and>
   match (run [Effect,
               Notify OnResult 0 (Recognition (single_result False ''hello world'' 1)),
               Notify OnResult 0
                 (Recognition (single_result False ''I said hello world twice: hello world'' 1))]
            (useSpeechRecognition default_options)) = None"
  by code_simp

text \<open>
  Claim C4. The same text under the same pattern object, handled twice in succession, gives
  a match the first time and none the second time.
\<close>

theorem scan_twice_differs:
  "match (run [Effect,
               Notify OnResult 0 (Recognition (single_result False ''hello world'' 1))]
            (useSpeechRecognition default_options)) = Some ''hello world'' \<and>
   match (run [Effect,
               Notify OnResult 0 (Recognition (single_result False ''hello world'' 1)),
               Notify OnResult 0 (Recognition (single_result False ''hello world'' 1))]
            (useSpeechRecognition default_options)) = None"
  by code_simp

text \<open>
  After a failed re-test \<^verbatim>\<open>lastIndex\<close> is back at 0, so every second matching event is
  seen; a text without an occurrence of the pattern clears the match in either case.
\<close>

lemma goodbye_clears_match:
  "match (run [Effect,
               Notify OnResult 0 (Recognition (single_result False ''hello world'' 1)),
               Notify OnResult 0 (Recognition (single_result False ''hello world'' 1)),
               Notify OnResult 0 (Recognition (single_result False ''hello world'' 1)),
               Notify OnResult 0 (Recognition (single_result False ''goodbye'' 1))]
            (useSpeechRecognition default_options)) = None \<and>
   match (run [Effect,
               Notify OnResult 0 (Recognition (single_result False ''hello world'' 1)),
               Notify OnResult 0 (Recognition (single_result False ''hello world'' 1)),
               Notify OnResult 0 (Recognition (single_result False ''hello world'' 1))]
            (useSpeechRecognition default_options)) = Some ''hello world''"
  by code_simp

text \<open>
  When the re-test fails, \<^verbatim>\<open>lastIndex\<close> is reset: an event that stores no match leaves the
  object ready for the next one. An event handled with \<^verbatim>\<open>lastIndex\<close> at 0 sees all the
  matches of its text, from left to right, and re-tests the last one from the start.
\<close>

lemma test_fails_resets:
  "global r \<Longrightarrow> \<not> fst (test r S) \<Longrightarrow> lastIndex (snd (test r S)) = 0"
  by (auto simp add: test_def RegExpBuiltinExec_def Let_def split: option.splits prod.splits)

lemma no_match_resets_lastIndex:
  assumes "well_formed ev" and "global (regex (captured s))"
    and "match (fst (handleResult scaled ev s)) = None"
  shows "lastIndex (regex (captured (fst (handleResult scaled ev s)))) = 0"
proof -
  obtain alt alts where a: "alternatives (results ev ! resultIndex ev) = alt # alts"
    using assms(1) by (cases "alternatives (results ev ! resultIndex ev)") (auto simp: well_formed_def)
  define ms where "ms = matchAll_from (regex (captured s)) (alt_transcript alt) (lastIndex (regex (captured s)))"
  define m where "m = toLowerCase (if ms = [] then [] else last ms)"
  have nf: "\<not> fst (test (regex (captured s)) m)"
    using assms a
    by (auto simp add: handleResult_def well_formed_def matchAll_def Let_def ms_def m_def
        split: prod.splits if_splits)
  have "regex (captured (fst (handleResult scaled ev s))) = snd (test (regex (captured s)) m)"
    using assms a
    by (auto simp add: handleResult_def well_formed_def matchAll_def Let_def ms_def m_def
        split: prod.splits if_splits)
  with test_fails_resets [OF assms(2) nf] show ?thesis by simp
qed

lemma pattern_step_from_start:
  assumes "well_formed ev" and "global (regex (captured s))"
    and "lastIndex (regex (captured s)) = 0"
  shows "match (fst (handleResult scaled ev s)) =
           (let r = regex (captured s);
                ms = matchAll_from r (alt_transcript (best ev)) 0;
                m = toLowerCase (if ms = [] then [] else last ms)
            in if fst (test r m) then Some m else None)"
proof -
  obtain alt alts where a: "alternatives (results ev ! resultIndex ev) = alt # alts"
    using assms(1)
    by (cases "alternatives (results ev ! resultIndex ev)") (auto simp: well_formed_def)
  with assms show ?thesis
    by (auto simp add: handleResult_def well_formed_def best_def matchAll_def Let_def
        split: prod.splits)
qed

section \<open>Start, restart and the overrides\<close>

text \<open>
  Claim C5. While the listening flag is set, \<^verbatim>\<open>start\<close>, with or without overrides, makes
  no call of the engine and schedules nothing.
\<close>

theorem start_while_listening:
  "isListening s \<Longrightarrow> trace (start so s) = trace s \<and> timers (start so s) = timers s"
  by (simp add: start_trace)

theorem start_while_listening_witness:
  "isListening (run [Effect, Notify OnStart 0 (Plain 0)] (useSpeechRecognition default_options)) \<and>
   trace (start None (run [Effect, Notify OnStart 0 (Plain 0)] (useSpeechRecognition default_options))) =
     trace (run [Effect, Notify OnStart 0 (Plain 0)] (useSpeechRecognition default_options))"
proof -
  let ?s = "run [Effect, Notify OnStart 0 (Plain 0)] (useSpeechRecognition default_options)"
  have h: "isListening ?s" by (simp add: hook_defs)
  from start_while_listening [OF h, of None] h show ?thesis by simp
qed

text \<open>
  Claim C6. During \<^verbatim>\<open>restart\<close> the only call of the engine is \<^verbatim>\<open>stop\<close>; the call of
  \<^verbatim>\<open>start\<close> with the overrides is appended to the timer queue, so whatever the hook does
  afterwards, the engine's \<^verbatim>\<open>start\<close> included, comes after that \<^verbatim>\<open>stop\<close>.
\<close>

theorem restart_defers_start:
  "trace (restart so s) = trace s @ [EngineStop] \<and>
   timers (restart so s) = timers s @ [Deferred_start so] \<and>
   (\<forall>acts. \<exists>es. trace (run acts (restart so s)) = trace s @ EngineStop # es)"
proof -
  have "\<exists>es. trace (run acts (restart so s)) = trace s @ EngineStop # es" for acts
    using run_trace_any [of acts "restart so s"] by simp
  then show ?thesis by simp
qed

theorem restart_defers_start_witness:
  "trace (run [Timeout] (restart None (run [Effect] (useSpeechRecognition default_options)))) =
     trace (run [Effect] (useSpeechRecognition default_options)) @
       [EngineStop, EngineStart (recognition (run [Effect] (useSpeechRecognition default_options)))]"
  using restart_defers_start [of None "run [Effect] (useSpeechRecognition default_options)"]
  by (simp add: run_timer_def start_trace useSpeechRecognition_def default_options_def
      useEffect_def initializeSpeechRecognition_def engine_start_def Let_def)

text \<open>
  Claim C7. The hook is mounted with the defaults and \<^verbatim>\<open>startOnLoad\<close> false; after the
  effect, \<^verbatim>\<open>start({lang: 'fr-FR'})\<close> is called, the engine reports its start, the caller
  stops it, the engine reports its end and the deferred restart of continuous mode runs.
  The override is merged into \<^verbatim>\<open>_options\<close>, but both calls of the engine's \<^verbatim>\<open>start\<close> find
  the engine with the language of the first render: the engine is only ever configured by
  \<^verbatim>\<open>initializeSpeechRecognition\<close>, which the guard of the effect runs once.
\<close>

theorem start_overrides_never_reach_engine:
  "let fr = \<lparr>so_continuous = None, so_grammar = None, so_interimResults = None,
             so_lang = Some ''fr-FR'', so_maxAlternatives = None, so_regex = None\<rparr>;
       s = run [Effect, Start (Some fr), Notify OnStart 0 (Plain 0), Stop,
                Notify OnEnd 0 (Plain 1), Timeout]
             (useSpeechRecognition (default_options\<lparr>startOnLoad := False\<rparr>))
   in lang (options s) = ''fr-FR'' \<and>
      r_lang (recognition s) = ''en-US'' \<and>
      trace s = [EngineStart (recognition s), EngineStop, EngineStop,
                 EngineStart (recognition s)]"
  by (simp add: hook_defs)

section \<open>The start notification\<close>

text \<open>
  Claim C10, as amended. In every state a mounted hook can reach, no function read from the
  options field \<^verbatim>\<open>onstart\<close> has been called; and once the engine is initialised, its start
  notification calls the caller's \<^verbatim>\<open>onend\<close> (if there is one), makes no other call, and
  sets the listening flag unless that call throws, in which case the flag is left as it
  was.
\<close>

theorem start_notification_calls_onend:
  assumes "s = run acts (useSpeechRecognition opts)"
  shows "(\<forall>f e. Invoke OnStart f e \<notin> set (trace s)) \<and>
         (isInitialized s \<longrightarrow>
            trace (step (Notify OnStart scaled ev) s) =
              trace s @ (case onend opts of None \<Rightarrow> [] | Some f \<Rightarrow> [Invoke OnEnd f ev]) \<and>
            isListening (step (Notify OnStart scaled ev) s) =
              (case onend opts of
                 None \<Rightarrow> True
               | Some f \<Rightarrow> if throws f ev then isListening s else True))"
proof -
  have w: "wired s"
    using assms by (simp add: wired_run wired_initial)
  from run_trace [OF wired_initial, of acts opts] assms
  have "quiet (trace s)"
    by (auto simp: useSpeechRecognition_def)
  then have 1: "\<forall>f e. Invoke OnStart f e \<notin> set (trace s)"
    by (auto simp: quiet_def)
  have o: "onend (captured s) = onend opts"
    unfolding assms by (rule run_first_render)
  have 2: "trace (step (Notify OnStart scaled ev) s) =
             trace s @ (case onend opts of None \<Rightarrow> [] | Some f \<Rightarrow> [Invoke OnEnd f ev]) \<and>
           isListening (step (Notify OnStart scaled ev) s) =
             (case onend opts of
                None \<Rightarrow> True
              | Some f \<Rightarrow> if throws f ev then isListening s else True)"
    if "isInitialized s"
    using w that
    by (simp add: wired_def listener_of_configure dispatch_def handleStart_trace
        handleStart_listening o)
  from 1 2 show ?thesis by blast
qed

theorem start_notification_calls_onend_witness:
  "isInitialized
     (run [Effect]
        (useSpeechRecognition
           (default_options\<lparr>onend := Some (returning 7), onstart := Some (returning 8)\<rparr>))) \<and>
   trace (step (Notify OnStart 0 (Plain 0))
      (run [Effect]
         (useSpeechRecognition
            (default_options\<lparr>onend := Some (returning 7), onstart := Some (returning 8)\<rparr>)))) =
     trace (run [Effect]
        (useSpeechRecognition
           (default_options\<lparr>onend := Some (returning 7), onstart := Some (returning 8)\<rparr>))) @
       [Invoke OnEnd (returning 7) (Plain 0)] \<and>
   isListening (step (Notify OnStart 0 (Plain 0))
      (run [Effect]
         (useSpeechRecognition
            (default_options\<lparr>onend := Some (returning 7), onstart := Some (returning 8)\<rparr>))))"
proof -
  let ?o = "default_options\<lparr>onend := Some (returning 7), onstart := Some (returning 8)\<rparr>"
  let ?s = "run [Effect] (useSpeechRecognition ?o)"
  have h: "isInitialized ?s" by (simp add: hook_defs)
  have c: "onend ?o = Some (returning 7)" "\<not> throws (returning 7) (Plain 0)"
    by (simp_all add: returning_def)
  from start_notification_calls_onend [OF refl, of "[Effect]" ?o 0 "Plain 0"] h c
  show ?thesis by simp
qed

text \<open>
  A caller's \<^verbatim>\<open>onend\<close> that throws: the start notification calls it, and the listening
  flag is still unset afterwards.
\<close>

theorem start_notification_throwing_onend:
  "\<not> isListening
       (run [Effect, Notify OnStart 0 (Plain 0)]
          (useSpeechRecognition (default_options\<lparr>onend := Some (throwing 7)\<rparr>))) \<and>
   last (trace
       (run [Effect, Notify OnStart 0 (Plain 0)]
          (useSpeechRecognition (default_options\<lparr>onend := Some (throwing 7)\<rparr>)))) =
     Invoke OnEnd (throwing 7) (Plain 0)"
  by (simp add: hook_defs throwing_def)

end
